theory Spec2Isabelle
  imports Main
begin

section \<open>Package health: the checks handler of handler.go\<close>

text \<open>
  A shallow embedding of \<^verbatim>\<open>src/health/handler.go\<close>. The Go code mutates a
  \<^verbatim>\<open>*checksHandler\<close>, writes to an \<^verbatim>\<open>http.ResponseWriter\<close>, calls
  caller-supplied check functions and calls a logrus logger. Here every one of these
  effects is a value: the handler is a record that the registration functions return
  updated, the response is a record, the calls made on a logger are returned as a list,
  and a check is a function on a state \<open>'w\<close> standing for whatever the check's closure
  can read and write (a counter, a connection, ...).

  Not modelled: the reader/writer lock (the model is sequential, one call at a time),
  response headers, a check that panics or never returns, and what logrus does with a
  call once it has received it.
\<close>

subsection \<open>Data\<close>

text \<open>A non-nil Go \<^verbatim>\<open>error\<close>, identified by its message.\<close>

type_synonym error = string

text \<open>
  Modelled from the spec: the type \<^verbatim>\<open>Check\<close> is declared in a file of package
  health that is not under src/. The spec has it as "a zero-argument operation that
  returns either success or a failure reason (an error value)", that is
  \<^verbatim>\<open>func() error\<close>. The result \<open>None\<close> is the nil error. A value of the
  map type \<^verbatim>\<open>map[string]Check\<close> may hold the nil function under a key: an
  entry is a \<open>'w Check option\<close>, with \<open>None\<close> for nil.
\<close>

type_synonym 'w Check = "'w \<Rightarrow> error option \<times> 'w"

type_synonym 'w checks = "string \<rightharpoonup> 'w Check option"

text \<open>
  A \<^verbatim>\<open>*logrus.Logger\<close> by the one field the code reads, its output writer;
  \<^verbatim>\<open>ioutil.Discard\<close> is a writer of its own. A \<^verbatim>\<open>*logrus.Entry\<close>
  holds a pointer to its logger in the field \<^verbatim>\<open>Logger\<close>; the pointer may be nil
  (\<open>None\<close>), as in the zero entry \<^verbatim>\<open>&logrus.Entry{}\<close>.
\<close>

datatype writer = Discard | Writer nat

record Logger =
  Out :: writer

record Entry =
  entry_Logger :: "Logger option"

datatype level = WarnLevel | ErrorLevel

text \<open>
  One call made on a logger: the logger, the level, the fields given to
  \<^verbatim>\<open>WithFields\<close>, the error given to \<^verbatim>\<open>WithError\<close> (if any), the message.
\<close>

datatype log_call = LogCall Logger level "(string \<times> string) list" "error option" string

record 'w checksHandler =
  livenessPath :: string
  livenessChecks :: "'w checks"
  readinessPath :: string
  readinessChecks :: "'w checks"
  failFast :: bool
  logger :: "Logger option"

text \<open>
  The request, by what \<^verbatim>\<open>handle\<close> reads of it: the method, \<^verbatim>\<open>r.URL.RawPath\<close>,
  and the entry that \<^verbatim>\<open>ctxlogrus.Extract(r.Context())\<close> returns (\<open>None\<close> for a nil
  pointer).
\<close>

record Request =
  Method :: string
  RawPath :: string
  ctx_entry :: "Entry option"

text \<open>What has been written to the \<^verbatim>\<open>http.ResponseWriter\<close>: status code and body.\<close>

record Response =
  resp_code :: nat
  resp_body :: string

text \<open>
  A run-time panic of the Go program. A function that panics returns nothing: where
  \<^verbatim>\<open>handle\<close> panics, it has written no response.
\<close>

datatype panic =
  IndexOutOfRange
  | NilPointerDereference
  | InvalidPattern
  | MultipleRegistrations string

abbreviation MethodGet :: string where
  "MethodGet \<equiv> ''GET''"

abbreviation StatusOK :: nat where
  "StatusOK \<equiv> 200"

abbreviation StatusMethodNotAllowed :: nat where
  "StatusMethodNotAllowed \<equiv> 405"

abbreviation StatusServiceUnavailable :: nat where
  "StatusServiceUnavailable \<equiv> 503"

subsection \<open>Construction and configuration\<close>

text \<open>
  \<^verbatim>\<open>healthPath[0]\<close> on the empty string panics with an index out of range; the
  first path is inspected before the second. \<^verbatim>\<open>failFast\<close> is not set by the
  composite literal, so it has its zero value.
\<close>

definition newChecksHandler :: "string \<Rightarrow> string \<Rightarrow> panic + 'w checksHandler" where
  "newChecksHandler healthPath readyPath =
     (case healthPath of
        [] \<Rightarrow> Inl IndexOutOfRange
      | h # _ \<Rightarrow>
          (let healthPath' = (if h \<noteq> CHR ''/'' then ''/'' @ healthPath else healthPath) in
           (case readyPath of
              [] \<Rightarrow> Inl IndexOutOfRange
            | g # _ \<Rightarrow>
                (let readyPath' = (if g \<noteq> CHR ''/'' then ''/'' @ readyPath else readyPath) in
                 Inr \<lparr> livenessPath = healthPath',
                       livenessChecks = Map.empty,
                       readinessPath = readyPath',
                       readinessChecks = Map.empty,
                       failFast = False,
                       logger = None \<rparr>))))"

definition NewChecksHandler :: "string \<Rightarrow> string \<Rightarrow> panic + 'w checksHandler" where
  "NewChecksHandler healthPath readyPath = newChecksHandler healthPath readyPath"

definition NewChecksHandlerWithOptions ::
  "string \<Rightarrow> string \<Rightarrow> ('w checksHandler \<Rightarrow> 'w checksHandler) list \<Rightarrow> panic + 'w checksHandler"
where
  "NewChecksHandlerWithOptions healthPath readyPath options =
     (case newChecksHandler healthPath readyPath of
        Inl p \<Rightarrow> Inl p
      | Inr ch \<Rightarrow> Inr (foldl (\<lambda>c option. option c) ch options))"


definition GetFailFast :: "'w checksHandler \<Rightarrow> bool" where
  "GetFailFast ch = failFast ch"

definition WithLogger :: "Logger option \<Rightarrow> 'w checksHandler \<Rightarrow> 'w checksHandler" where
  "WithLogger lg = (\<lambda>c. c\<lparr>logger := lg\<rparr>)"

subsection \<open>Registration\<close>

text \<open>The two path fields every log call of the handler carries.\<close>

definition path_fields :: "'w checksHandler \<Rightarrow> (string \<times> string) list" where
  "path_fields ch =
     [(''liveness_path'', livenessPath ch), (''readiness_path'', readinessPath ch)]"

text \<open>
  Both registration functions return the updated handler and the log calls made. The
  message of \<^verbatim>\<open>AddReadiness\<close> is the source's.
\<close>

definition AddLiveness ::
  "'w checksHandler \<Rightarrow> string \<Rightarrow> 'w Check option \<Rightarrow> 'w checksHandler \<times> log_call list"
where
  "AddLiveness ch name check =
     (ch\<lparr>livenessChecks := (livenessChecks ch)(name \<mapsto> check)\<rparr>,
      (case logger ch of
         None \<Rightarrow> []
       | Some lg \<Rightarrow>
           [LogCall lg WarnLevel (path_fields ch @ [(''name'', name)]) None
              ''adding liveness check'']))"

definition AddReadiness ::
  "'w checksHandler \<Rightarrow> string \<Rightarrow> 'w Check option \<Rightarrow> 'w checksHandler \<times> log_call list"
where
  "AddReadiness ch name check =
     (ch\<lparr>readinessChecks := (readinessChecks ch)(name \<mapsto> check)\<rparr>,
      (case logger ch of
         None \<Rightarrow> []
       | Some lg \<Rightarrow>
           [LogCall lg WarnLevel (path_fields ch @ [(''name'', name)]) None
              ''adding liveness check'']))"

subsection \<open>Routes\<close>

text \<open>
  The two method values that \<^verbatim>\<open>registerMux\<close> hands to the router, and any other
  handler a caller's router may already hold.
\<close>

datatype handlerFunc = ReadyEndpoint | HealthEndpoint | OtherHandler nat

text \<open>
  \<^verbatim>\<open>http.ServeMux\<close> belongs to Go's standard library, not to this repository. It
  is modelled by its registration table and by the documented behaviour of
  \<^verbatim>\<open>HandleFunc\<close>: it panics on an empty pattern, and it panics when the pattern
  is already registered. The pattern language of newer Go versions (methods, wildcards),
  which refuses more patterns, is not modelled.
\<close>

type_synonym ServeMux = "(string \<times> handlerFunc) list"

definition NewServeMux :: ServeMux where
  "NewServeMux = []"

definition HandleFunc :: "ServeMux \<Rightarrow> string \<Rightarrow> handlerFunc \<Rightarrow> panic + ServeMux" where
  "HandleFunc mux pattern h =
     (if pattern = [] then Inl InvalidPattern
      else if map_of mux pattern \<noteq> None then Inl (MultipleRegistrations pattern)
      else Inr (mux @ [(pattern, h)]))"

text \<open>
  The three functions below return the log calls made and either the panic or the
  router with both routes added. The readiness path is registered first.
\<close>

definition registerMux ::
  "'w checksHandler \<Rightarrow> ServeMux \<Rightarrow> log_call list \<times> (panic + ServeMux)"
where
  "registerMux ch mux =
     ((case logger ch of
         None \<Rightarrow> []
       | Some lg \<Rightarrow>
           [LogCall lg WarnLevel (path_fields ch) None
              ''registering endpoints for health checker'']),
      (case HandleFunc mux (readinessPath ch) ReadyEndpoint of
         Inl p \<Rightarrow> Inl p
       | Inr mux' \<Rightarrow> HandleFunc mux' (livenessPath ch) HealthEndpoint))"

definition Handler :: "'w checksHandler \<Rightarrow> log_call list \<times> (panic + ServeMux)" where
  "Handler ch =
     (let l = (case logger ch of
                 None \<Rightarrow> []
               | Some lg \<Rightarrow>
                   [LogCall lg WarnLevel (path_fields ch) None
                      ''creating new ServeMux for health checker'']);
          (l', res) = registerMux ch NewServeMux
      in (l @ l', res))"

definition RegisterHandler ::
  "'w checksHandler \<Rightarrow> ServeMux \<Rightarrow> log_call list \<times> (panic + ServeMux)"
where
  "RegisterHandler ch mux =
     (let l = (case logger ch of
                 None \<Rightarrow> []
               | Some lg \<Rightarrow>
                   [LogCall lg WarnLevel (path_fields ch) None
                      ''registering ServeMux for health checker'']);
          (l', res) = registerMux ch mux
      in (l @ l', res))"

subsection \<open>Request handling\<close>

text \<open>
  \<^verbatim>\<open>logger.Logger.Out\<close> (line 158) reads through the entry's logger pointer with no
  test for nil: on an entry whose \<^verbatim>\<open>Logger\<close> is nil it panics.
\<close>

definition checkLogger :: "Entry option \<Rightarrow> panic + Entry option \<times> bool" where
  "checkLogger lg =
     (case lg of
        None \<Rightarrow> Inr (lg, False)
      | Some e \<Rightarrow>
          (case entry_Logger e of
             None \<Rightarrow> Inl NilPointerDereference
           | Some l \<Rightarrow> if Out l = Discard then Inr (lg, False) else Inr (lg, True)))"

text \<open>
  The local variables of \<^verbatim>\<open>handle\<close> during the loops, together with what the
  loops have done so far: the state of the checks' world, the log calls made, and the
  calls \<^verbatim>\<open>check()\<close> made (line 193), each with the name of its entry and its
  result, in order.
\<close>

record 'w eval =
  st_status :: nat
  st_errors :: "string \<rightharpoonup> error"
  st_world :: 'w
  st_logged :: "log_call list"
  st_invoked :: "(string \<times> error option) list"

text \<open>
  The inner loop, \<^verbatim>\<open>for name, check := range checks\<close>. Go leaves the order of a
  range over a map unspecified; the list of names is the order this range takes, one
  visit for each key of the map (see \<open>range_order\<close>). A name that is not a key is
  not visited. \<open>Inl\<close> is the return from inside the loop, \<open>Inr\<close> the normal end of
  the loop.
\<close>

fun range_checks ::
  "'w checksHandler \<Rightarrow> Request \<Rightarrow> Logger option \<Rightarrow> 'w checks \<Rightarrow> string list \<Rightarrow> 'w eval
     \<Rightarrow> 'w eval + 'w eval"
where
  "range_checks ch r lg checks [] s = Inr s"
| "range_checks ch r lg checks (name # names) s =
     (case checks name of
        None \<Rightarrow> range_checks ch r lg checks names s
      | Some None \<Rightarrow> range_checks ch r lg checks names s
      | Some (Some check) \<Rightarrow>
          (case check (st_world s) of
             (None, w') \<Rightarrow>
               range_checks ch r lg checks names
                 (s\<lparr>st_world := w', st_invoked := st_invoked s @ [(name, None)]\<rparr>)
           | (Some err, w') \<Rightarrow>
               (let s' = s\<lparr>st_world := w',
                          st_invoked := st_invoked s @ [(name, Some err)],
                          st_logged := st_logged s @
                            (case lg of
                               None \<Rightarrow> []
                             | Some l \<Rightarrow>
                                 [LogCall l ErrorLevel
                                    (path_fields ch @ [(''url'', RawPath r)]) (Some err)
                                    ''health check returned error'']),
                          st_status := StatusServiceUnavailable,
                          st_errors := (st_errors s)(name \<mapsto> err)\<rparr>
                in if failFast ch then Inl s'
                   else range_checks ch r lg checks names s')))"


text \<open>
  The outer loop, \<^verbatim>\<open>for _, checks := range checksSets\<close>, with one order for each
  map of the slice.
\<close>

fun range_checksSets ::
  "'w checksHandler \<Rightarrow> Request \<Rightarrow> Logger option \<Rightarrow> 'w checks list \<Rightarrow> string list list
     \<Rightarrow> 'w eval \<Rightarrow> 'w eval + 'w eval"
where
  "range_checksSets ch r lg [] orders s = Inr s"
| "range_checksSets ch r lg (checks # rest) [] s =
     (case range_checks ch r lg checks [] s of
        Inl s' \<Rightarrow> Inl s'
      | Inr s' \<Rightarrow> range_checksSets ch r lg rest [] s')"
| "range_checksSets ch r lg (checks # rest) (names # orders) s =
     (case range_checks ch r lg checks names s of
        Inl s' \<Rightarrow> Inl s'
      | Inr s' \<Rightarrow> range_checksSets ch r lg rest orders s')"

text \<open>
  What one call of \<^verbatim>\<open>handle\<close> leaves behind: the response, the local map
  \<^verbatim>\<open>errors\<close> (empty when it was never created), the checks' world, the log calls
  and the check calls made.
\<close>

record 'w outcome =
  response :: Response
  errors :: "string \<rightharpoonup> error"
  world :: 'w
  logged :: "log_call list"
  invoked :: "(string \<times> error option) list"

text \<open>
  \<^verbatim>\<open>http.Error(rw, text, code)\<close> writes the status code and the text followed by a
  newline; \<^verbatim>\<open>http.StatusText(405)\<close> is "Method Not Allowed".
\<close>

definition http_Error :: "string \<Rightarrow> nat \<Rightarrow> Response" where
  "http_Error text code = \<lparr> resp_code = code, resp_body = text @ [CHR 0x0A] \<rparr>"

definition StatusText :: "nat \<Rightarrow> string" where
  "StatusText code =
     (if code = StatusMethodNotAllowed then ''Method Not Allowed''
      else if code = StatusOK then ''OK''
      else if code = StatusServiceUnavailable then ''Service Unavailable''
      else [])"

text \<open>\<^verbatim>\<open>rw.WriteHeader(status)\<close> with nothing written after it: an empty body.\<close>

definition WriteHeader :: "nat \<Rightarrow> Response" where
  "WriteHeader status = \<lparr> resp_code = status, resp_body = [] \<rparr>"

text \<open>
  \<^verbatim>\<open>checkLogger\<close> is called first, before the test of the method, so its panic
  ends every kind of request.
\<close>

definition handle ::
  "'w checksHandler \<Rightarrow> Request \<Rightarrow> 'w checks list \<Rightarrow> string list list \<Rightarrow> 'w
     \<Rightarrow> panic + 'w outcome"
where
  "handle ch r checksSets orders w =
     (case checkLogger (ctx_entry r) of
        Inl p \<Rightarrow> Inl p
      | Inr checked \<Rightarrow>
          (let lg = (case checked of
                       (Some ctxLogger, True) \<Rightarrow> entry_Logger ctxLogger
                     | _ \<Rightarrow> logger ch)
           in if Method r \<noteq> MethodGet then
                Inr \<lparr> response =
                        http_Error (StatusText StatusMethodNotAllowed) StatusMethodNotAllowed,
                      errors = Map.empty,
                      world = w,
                      logged = (case lg of
                                  None \<Rightarrow> []
                                | Some l \<Rightarrow>
                                    [LogCall l WarnLevel
                                       (path_fields ch @ [(''url'', RawPath r)]) None
                                       ''received non-GET request'']),
                      invoked = [] \<rparr>
              else
                (let s0 = \<lparr> st_status = StatusOK, st_errors = Map.empty, st_world = w,
                            st_logged = [], st_invoked = [] \<rparr>;
                     s = (case range_checksSets ch r lg checksSets orders s0 of
                            Inl s' \<Rightarrow> s'
                          | Inr s' \<Rightarrow> s')
                 in Inr \<lparr> response = WriteHeader (st_status s),
                           errors = st_errors s,
                           world = st_world s,
                           logged = st_logged s,
                           invoked = st_invoked s \<rparr>)))"

text \<open>
  The two endpoints call \<^verbatim>\<open>handle\<close> with one map each. The extra arguments are
  the order the range over that map takes and the world of the checks.
\<close>

definition healthEndpoint ::
  "'w checksHandler \<Rightarrow> Request \<Rightarrow> string list \<Rightarrow> 'w \<Rightarrow> panic + 'w outcome"
where
  "healthEndpoint ch r names w = handle ch r [livenessChecks ch] [names] w"

definition readyEndpoint ::
  "'w checksHandler \<Rightarrow> Request \<Rightarrow> string list \<Rightarrow> 'w \<Rightarrow> panic + 'w outcome"
where
  "readyEndpoint ch r names w = handle ch r [readinessChecks ch] [names] w"


subsection \<open>Vocabulary of the statements\<close>

text \<open>The state a loop ends in, whether it ended by the return or normally.\<close>

abbreviation final :: "'a + 'a \<Rightarrow> 'a" where
  "final x \<equiv> (case x of Inl s' \<Rightarrow> s' | Inr s' \<Rightarrow> s')"


text \<open>
  The aggregate status agrees with the failure map: OK with no failure recorded,
  Service Unavailable with at least one.
\<close>

definition aggregate_ok :: "'w eval \<Rightarrow> bool" where
  "aggregate_ok s \<longleftrightarrow>
     (st_status s = StatusOK \<and> st_errors s = Map.empty) \<or>
     (st_status s = StatusServiceUnavailable \<and> st_errors s \<noteq> Map.empty)"

text \<open>Two loop states that differ at most in the log calls made.\<close>

definition same_but_logs :: "'w eval \<Rightarrow> 'w eval \<Rightarrow> bool" where
  "same_but_logs s t \<longleftrightarrow>
     st_status s = st_status t \<and> st_errors s = st_errors t \<and>
     st_world s = st_world t \<and> st_invoked s = st_invoked t"

text \<open>
  Names for three parts of \<^verbatim>\<open>handle\<close>: the logger it settles on (lines 165 to
  169), its locals before the loops (lines 183 and 184), and what it leaves behind after
  \<^verbatim>\<open>rw.WriteHeader(status)\<close>. Lemma \<open>handle_GET\<close> relates them to \<open>handle\<close>.
\<close>

definition handle_logger :: "'w checksHandler \<Rightarrow> Request \<Rightarrow> Logger option" where
  "handle_logger ch r =
     (case checkLogger (ctx_entry r) of
        Inr (Some ctxLogger, True) \<Rightarrow> entry_Logger ctxLogger
      | _ \<Rightarrow> logger ch)"

text \<open>
  The request carries no context entry, or one whose logger pointer is not nil: the
  requests on which \<^verbatim>\<open>checkLogger\<close> does not panic.
\<close>

definition ctx_entry_ok :: "Request \<Rightarrow> bool" where
  "ctx_entry_ok r = (case ctx_entry r of None \<Rightarrow> True | Some e \<Rightarrow> entry_Logger e \<noteq> None)"

definition eval0 :: "'w \<Rightarrow> 'w eval" where
  "eval0 w = \<lparr> st_status = StatusOK, st_errors = Map.empty, st_world = w,
               st_logged = [], st_invoked = [] \<rparr>"

definition finish :: "'w eval \<Rightarrow> 'w outcome" where
  "finish s = \<lparr> response = WriteHeader (st_status s),
               errors = st_errors s,
               world = st_world s,
               logged = st_logged s,
               invoked = st_invoked s \<rparr>"

text \<open>A sequence of registrations, applied from left to right.\<close>

datatype 'w registration =
  Liveness string "'w Check option"
  | Readiness string "'w Check option"

fun register :: "'w checksHandler \<Rightarrow> 'w registration \<Rightarrow> 'w checksHandler" where
  "register ch (Liveness name check) = fst (AddLiveness ch name check)"
| "register ch (Readiness name check) = fst (AddReadiness ch name check)"

definition register_all :: "'w checksHandler \<Rightarrow> 'w registration list \<Rightarrow> 'w checksHandler" where
  "register_all ch regs = foldl register ch regs"

fun is_readiness :: "'w registration \<Rightarrow> bool" where
  "is_readiness (Liveness name check) = False"
| "is_readiness (Readiness name check) = True"

subsection \<open>Fixtures\<close>

text \<open>
  Counting checks: the world is the number of check calls made so far. One check
  always passes, the other always fails with the given reason.
\<close>

definition passing :: "nat Check" where
  "passing = (\<lambda>n. (None, Suc n))"

definition failing :: "error \<Rightarrow> nat Check" where
  "failing reason = (\<lambda>n. (Some reason, Suc n))"

text \<open>
  The example of the specification (paths \<^verbatim>\<open>/live\<close> and \<^verbatim>\<open>/ready\<close>, a
  readiness check "db" that fails with "connection refused"), with a passing check and
  a nil entry beside it.
\<close>

definition example_handler :: "nat checksHandler" where
  "example_handler =
     \<lparr> livenessPath = ''/live'',
       livenessChecks = Map.empty,
       readinessPath = ''/ready'',
       readinessChecks =
         [''cache'' \<mapsto> Some passing,
          ''db'' \<mapsto> Some (failing ''connection refused''),
          ''off'' \<mapsto> None],
       failFast = False,
       logger = None \<rparr>"

definition get_request :: Request where
  "get_request = \<lparr> Method = ''GET'', RawPath = [], ctx_entry = None \<rparr>"

definition post_request :: Request where
  "post_request = \<lparr> Method = ''POST'', RawPath = [], ctx_entry = None \<rparr>"

definition stderr_logger :: Logger where
  "stderr_logger = \<lparr> Out = Writer 2 \<rparr>"

text \<open>
  A GET request whose context carries the zero entry \<^verbatim>\<open>&logrus.Entry{}\<close>, and one
  whose context carries an entry of a logger that writes.
\<close>

definition nil_logger_request :: Request where
  "nil_logger_request =
     \<lparr> Method = ''GET'', RawPath = [], ctx_entry = Some \<lparr> entry_Logger = None \<rparr> \<rparr>"

definition logged_request :: Request where
  "logged_request =
     \<lparr> Method = ''GET'', RawPath = [],
       ctx_entry = Some \<lparr> entry_Logger = Some \<lparr> Out = Writer 7 \<rparr> \<rparr> \<rparr>"

text \<open>What \<^verbatim>\<open>newChecksHandler("health", "/health")\<close> returns: both paths are \<^verbatim>\<open>/health\<close>.\<close>

definition same_path_handler :: "nat checksHandler" where
  "same_path_handler =
     \<lparr> livenessPath = ''/health'',
       livenessChecks = Map.empty,
       readinessPath = ''/health'',
       readinessChecks = Map.empty,
       failFast = False,
       logger = None \<rparr>"

section \<open>Properties\<close>

subsection \<open>The loop over one check map\<close>



lemma range_checks_completes:
  "\<not> failFast ch \<Longrightarrow> \<not> isl (range_checks ch r lg m ks s)"
  by (induction ks arbitrary: s) (auto simp: Let_def split: option.splits prod.splits)





lemma range_checks_aggregate:
  "aggregate_ok s \<Longrightarrow> aggregate_ok (final (range_checks ch r lg m ks s))"
proof (induction ks arbitrary: s)
  case Nil
  then show ?case by simp
next
  case (Cons k ks)
  have upd: "\<And>w' e. aggregate_ok (s\<lparr>st_world := w', st_invoked := st_invoked s @ [(k, e)]\<rparr>)"
    using Cons.prems by (simp add: aggregate_ok_def)
  show ?case
    using Cons.prems Cons.IH upd
    by (auto simp: Let_def aggregate_ok_def split: option.splits prod.splits)
qed

lemma range_checksSets_aggregate:
  "aggregate_ok s \<Longrightarrow> aggregate_ok (final (range_checksSets ch r lg sets orders s))"
proof (induction ch r lg sets orders s rule: range_checksSets.induct)
  case (1 ch r lg orders s)
  then show ?case by simp
next
  case (2 ch r lg checks rest s)
  then show ?case by simp
next
  case (3 ch r lg checks rest names orders s)
  show ?case
  proof (cases "range_checks ch r lg checks names s")
    case (Inl a)
    then show ?thesis using range_checks_aggregate [OF "3.prems", of ch r lg checks names] by simp
  next
    case (Inr b)
    then show ?thesis
      using range_checks_aggregate [OF "3.prems", of ch r lg checks names] "3.IH" by simp
  qed
qed


lemma same_but_logs_step:
  "same_but_logs s t \<Longrightarrow>
   same_but_logs (s\<lparr>st_world := w', st_invoked := st_invoked s @ [x]\<rparr>)
                 (t\<lparr>st_world := w', st_invoked := st_invoked t @ [x]\<rparr>)"
  by (simp add: same_but_logs_def)

lemma same_but_logs_fail:
  "same_but_logs s t \<Longrightarrow>
   same_but_logs
     (s\<lparr>st_world := w', st_invoked := st_invoked s @ [x], st_logged := l1,
        st_status := c, st_errors := (st_errors s)(k \<mapsto> e)\<rparr>)
     (t\<lparr>st_world := w', st_invoked := st_invoked t @ [x], st_logged := l2,
        st_status := c, st_errors := (st_errors t)(k \<mapsto> e)\<rparr>)"
  by (simp add: same_but_logs_def)

lemma range_checks_logger_free:
  "failFast ch = failFast ch' \<Longrightarrow> same_but_logs s t \<Longrightarrow>
   rel_sum same_but_logs same_but_logs
     (range_checks ch r lg m ks s) (range_checks ch' r' lg' m ks t)"
proof (induction ks arbitrary: s t)
  case Nil
  then show ?case by simp
next
  case (Cons k ks)
  note ff = Cons.prems(1) and st = Cons.prems(2)
  have w: "st_world t = st_world s"
    using st by (simp add: same_but_logs_def)
  show ?case
  proof (cases "m k")
    case None
    then show ?thesis using Cons.IH [OF ff st] by simp
  next
    case (Some entry)
    note mk = this
    show ?thesis
    proof (cases entry)
      case None
      then show ?thesis using mk Cons.IH [OF ff st] by simp
    next
      case (Some c)
      note entry = this
      obtain res w' where cw: "c (st_world s) = (res, w')" by (cases "c (st_world s)")
      show ?thesis
      proof (cases res)
        case None
        show ?thesis
          using mk entry cw None w Cons.IH [OF ff same_but_logs_step [OF st]]
          by simp
      next
        case (Some err)
        show ?thesis
        proof (cases "failFast ch")
          case True
          then show ?thesis
            using mk entry cw Some w ff same_but_logs_fail [OF st]
            by (simp add: Let_def)
        next
          case False
          then show ?thesis
            using mk entry cw Some w ff Cons.IH [OF ff same_but_logs_fail [OF st]]
            by (simp add: Let_def)
        qed
      qed
    qed
  qed
qed

lemma range_checksSets_Cons:
  "range_checksSets ch r lg (m # sets) orders s =
     (case range_checks ch r lg m (case orders of [] \<Rightarrow> [] | ks # _ \<Rightarrow> ks) s of
        Inl s' \<Rightarrow> Inl s'
      | Inr s' \<Rightarrow> range_checksSets ch r lg sets (tl orders) s')"
  by (cases orders) (simp_all split: sum.splits)

lemma range_checksSets_logger_free:
  "failFast ch = failFast ch' \<Longrightarrow> same_but_logs s t \<Longrightarrow>
   rel_sum same_but_logs same_but_logs
     (range_checksSets ch r lg sets orders s) (range_checksSets ch' r' lg' sets orders t)"
proof (induction sets arbitrary: orders s t)
  case Nil
  then show ?case by simp
next
  case (Cons m sets)
  note ff = Cons.prems(1)
  define ks where "ks = (case orders of [] \<Rightarrow> [] | ks # _ \<Rightarrow> ks)"
  note unfold = range_checksSets_Cons [of _ _ _ m sets orders, folded ks_def]
  have step: "rel_sum same_but_logs same_but_logs
     (range_checks ch r lg m ks s) (range_checks ch' r' lg' m ks t)"
    using Cons.prems by (rule range_checks_logger_free)
  show ?case
  proof (cases "range_checks ch r lg m ks s")
    case (Inl a)
    then obtain b where "range_checks ch' r' lg' m ks t = Inl b" "same_but_logs a b"
      using step by (cases "range_checks ch' r' lg' m ks t") simp_all
    then show ?thesis using Inl by (simp add: unfold)
  next
    case (Inr a)
    then obtain b where "range_checks ch' r' lg' m ks t = Inr b" "same_but_logs a b"
      using step by (cases "range_checks ch' r' lg' m ks t") simp_all
    then show ?thesis using Inr Cons.IH [OF ff, of a b] by (simp add: unfold)
  qed
qed

lemma range_checks_cong:
  "failFast ch = failFast ch' \<Longrightarrow> path_fields ch = path_fields ch' \<Longrightarrow>
   range_checks ch r lg m ks s = range_checks ch' r lg m ks s"
  by (induction ks arbitrary: s) (auto simp: Let_def split: option.splits prod.splits)

lemma range_checksSets_cong:
  assumes "failFast ch = failFast ch'" "path_fields ch = path_fields ch'"
  shows "range_checksSets ch r lg sets orders s = range_checksSets ch' r lg sets orders s"
proof (induction sets arbitrary: orders s)
  case Nil
  then show ?case by simp
next
  case (Cons m sets)
  have "\<And>ks. range_checks ch r lg m ks s = range_checks ch' r lg m ks s"
    using assms by (rule range_checks_cong)
  then show ?case
    by (cases orders) (simp_all add: Cons.IH split: sum.splits)
qed

lemma handle_cong:
  assumes "failFast ch = failFast ch'" "path_fields ch = path_fields ch'"
    "logger ch = logger ch'"
  shows "handle ch r sets orders w = handle ch' r sets orders w"
proof -
  have eq: "\<And>lg s. range_checksSets ch r lg sets orders s = range_checksSets ch' r lg sets orders s"
    using assms(1,2) by (rule range_checksSets_cong)
  show ?thesis
    unfolding handle_def eq assms(2) assms(3) by (rule refl)
qed


subsection \<open>The handler\<close>

lemma checkLogger_ok:
  "ctx_entry_ok r \<Longrightarrow> \<exists>checked. checkLogger (ctx_entry r) = Inr checked"
  by (auto simp: ctx_entry_ok_def checkLogger_def split: option.splits)

lemma checkLogger_nil:
  "\<not> ctx_entry_ok r \<Longrightarrow> checkLogger (ctx_entry r) = Inl NilPointerDereference"
  by (auto simp: ctx_entry_ok_def checkLogger_def split: option.splits)

lemma handle_nil_logger:
  "\<not> ctx_entry_ok r \<Longrightarrow> handle ch r checksSets orders w = Inl NilPointerDereference"
  by (simp add: handle_def checkLogger_nil)

lemma handle_not_GET:
  assumes "ctx_entry_ok r" and "Method r \<noteq> MethodGet"
  shows "handle ch r checksSets orders w =
     Inr \<lparr> response = \<lparr> resp_code = StatusMethodNotAllowed,
                         resp_body = ''Method Not Allowed'' @ [CHR 0x0A] \<rparr>,
           errors = Map.empty,
           world = w,
           logged = (case handle_logger ch r of
                       None \<Rightarrow> []
                     | Some l \<Rightarrow>
                         [LogCall l WarnLevel (path_fields ch @ [(''url'', RawPath r)]) None
                            ''received non-GET request'']),
           invoked = [] \<rparr>"
proof -
  obtain checked where c: "checkLogger (ctx_entry r) = Inr checked"
    using checkLogger_ok [OF assms(1)] ..
  show ?thesis
    using assms(2)
    by (simp add: handle_def handle_logger_def c http_Error_def StatusText_def Let_def)
qed

lemma handle_GET:
  assumes "ctx_entry_ok r" and "Method r = MethodGet"
  shows "handle ch r checksSets orders w =
     Inr (finish (final
       (range_checksSets ch r (handle_logger ch r) checksSets orders (eval0 w))))"
proof -
  obtain checked where c: "checkLogger (ctx_entry r) = Inr checked"
    using checkLogger_ok [OF assms(1)] ..
  show ?thesis
    using assms(2)
    by (simp add: handle_def handle_logger_def c eval0_def finish_def Let_def)
qed









text \<open>
  Claim C8. A GET request is answered with an empty body, with 200 as well as with
  503. The failure map built during the evaluation decides the status code (200 exactly
  when it is empty) and is not written to the response. (The request is one on which
  \<^verbatim>\<open>checkLogger\<close> does not panic: no context entry, or an entry with a logger.)
\<close>

theorem handle_GET_empty_body:
  assumes "ctx_entry_ok r" and "Method r = MethodGet"
  shows "\<exists>out. handle ch r checksSets orders w = Inr out \<and>
           resp_body (response out) = [] \<and>
           (errors out = Map.empty \<and> resp_code (response out) = StatusOK \<or>
            errors out \<noteq> Map.empty \<and>
              resp_code (response out) = StatusServiceUnavailable)"
proof -
  have "aggregate_ok (eval0 w)"
    by (simp add: aggregate_ok_def eval0_def)
  then have "aggregate_ok
      (final (range_checksSets ch r (handle_logger ch r) checksSets orders (eval0 w)))"
    by (rule range_checksSets_aggregate)
  then show ?thesis
    unfolding handle_GET [OF assms]
    by (auto simp: finish_def WriteHeader_def aggregate_ok_def)
qed

theorem handle_GET_empty_body_witness:
  "readyEndpoint example_handler get_request [''db'', ''off'', ''cache''] 0 =
     Inr \<lparr> response = \<lparr> resp_code = 503, resp_body = [] \<rparr>,
           errors = [''db'' \<mapsto> ''connection refused''],
           world = 2,
           logged = [],
           invoked = [(''db'', Some ''connection refused''), (''cache'', None)] \<rparr> \<and>
   map_sum id response (healthEndpoint example_handler get_request [] 0) =
     Inr \<lparr> resp_code = 200, resp_body = [] \<rparr>"
proof -
  have e: "ctx_entry_ok get_request"
    by (simp add: ctx_entry_ok_def get_request_def)
  have m: "Method get_request = MethodGet"
    by (simp add: get_request_def)
  show ?thesis
    using handle_GET_empty_body [OF e m, of example_handler
        "[readinessChecks example_handler]" "[[''db'', ''off'', ''cache'']]" 0]
    by (simp add: readyEndpoint_def healthEndpoint_def handle_def example_handler_def
        get_request_def checkLogger_def failing_def passing_def WriteHeader_def Let_def)
qed





subsection \<open>The logger and the response\<close>

lemma rel_sum_final:
  "rel_sum R R x y \<Longrightarrow> R (final x) (final y)"
  by (cases x; cases y) simp_all

text \<open>
  Where \<^verbatim>\<open>checkLogger\<close> does not panic, the loggers decide the log calls only: two
  runs of \<^verbatim>\<open>handle\<close> that differ in the handler's logger and in the request's
  context entry write the same response, call the same checks with the same results,
  build the same failure map and leave the same world.
\<close>

lemma handle_logger_free:
  assumes "ctx_entry_ok (r\<lparr>ctx_entry := ea\<rparr>)" and "ctx_entry_ok (r\<lparr>ctx_entry := eb\<rparr>)"
  shows "\<exists>oa ob.
           handle (ch\<lparr>logger := la\<rparr>) (r\<lparr>ctx_entry := ea\<rparr>) checksSets orders w = Inr oa \<and>
           handle (ch\<lparr>logger := lb\<rparr>) (r\<lparr>ctx_entry := eb\<rparr>) checksSets orders w = Inr ob \<and>
           response oa = response ob \<and> invoked oa = invoked ob \<and>
           errors oa = errors ob \<and> world oa = world ob"
proof (cases "Method r = MethodGet")
  case False
  then show ?thesis
    using handle_not_GET [OF assms(1), of "ch\<lparr>logger := la\<rparr>" checksSets orders w]
      handle_not_GET [OF assms(2), of "ch\<lparr>logger := lb\<rparr>" checksSets orders w]
    by simp
next
  case True
  let ?ca = "ch\<lparr>logger := la\<rparr>" and ?cb = "ch\<lparr>logger := lb\<rparr>"
  let ?ra = "r\<lparr>ctx_entry := ea\<rparr>" and ?rb = "r\<lparr>ctx_entry := eb\<rparr>"
  let ?sa = "final (range_checksSets ?ca ?ra (handle_logger ?ca ?ra) checksSets orders (eval0 w))"
  let ?sb = "final (range_checksSets ?cb ?rb (handle_logger ?cb ?rb) checksSets orders (eval0 w))"
  have ff: "failFast ?ca = failFast ?cb"
    by simp
  have start: "same_but_logs (eval0 w) (eval0 w)"
    by (simp add: same_but_logs_def)
  have "same_but_logs ?sa ?sb"
    by (rule rel_sum_final) (rule range_checksSets_logger_free [OF ff start])
  moreover have "handle ?ca ?ra checksSets orders w = Inr (finish ?sa)"
    using True by (simp add: handle_GET [OF assms(1)])
  moreover have "handle ?cb ?rb checksSets orders w = Inr (finish ?sb)"
    using True by (simp add: handle_GET [OF assms(2)])
  ultimately show ?thesis
    by (simp add: finish_def same_but_logs_def)
qed

lemma handle_logged_request:
  "map_sum id (\<lambda>out. (response out, length (logged out)))
     (readyEndpoint example_handler logged_request [''db'', ''off'', ''cache''] 0) =
     Inr (\<lparr> resp_code = 503, resp_body = [] \<rparr>, 1)"
  by (simp add: readyEndpoint_def handle_def example_handler_def logged_request_def
      checkLogger_def failing_def passing_def WriteHeader_def Let_def)

text \<open>
  Claim C6, at the input where the code leaves it. The GET request of the example
  with no context entry is answered with 503. The same request with the zero entry
  \<^verbatim>\<open>&logrus.Entry{}\<close> in its context, on the same handler, is not answered at all:
  \<^verbatim>\<open>checkLogger\<close> reads \<^verbatim>\<open>logger.Logger.Out\<close> through the nil pointer and
  \<^verbatim>\<open>handle\<close> panics before it writes a response. The same happens to a POST
  request, which without the entry is answered with 405.
\<close>

theorem handle_nil_logger_entry_panics:
  "map_sum id (\<lambda>out. resp_code (response out))
     (readyEndpoint example_handler get_request [''db'', ''off'', ''cache''] 0) = Inr 503 \<and>
   readyEndpoint example_handler nil_logger_request [''db'', ''off'', ''cache''] 0 =
     Inl NilPointerDereference \<and>
   map_sum id (\<lambda>out. resp_code (response out))
     (readyEndpoint example_handler post_request [''db'', ''off'', ''cache''] 0) = Inr 405 \<and>
   readyEndpoint example_handler (nil_logger_request\<lparr>Method := ''POST''\<rparr>)
     [''db'', ''off'', ''cache''] 0 = Inl NilPointerDereference"
  by (simp add: readyEndpoint_def handle_def example_handler_def get_request_def
      post_request_def nil_logger_request_def checkLogger_def failing_def passing_def
      WriteHeader_def http_Error_def Let_def)

subsection \<open>The two check maps are independent\<close>

lemma register_frame:
  "failFast (register ch reg) = failFast ch"
  "path_fields (register ch reg) = path_fields ch"
  "logger (register ch reg) = logger ch"
  by (cases reg; simp add: AddLiveness_def AddReadiness_def path_fields_def)+

lemma register_all_frame:
  "failFast (register_all ch regs) = failFast ch \<and>
   path_fields (register_all ch regs) = path_fields ch \<and>
   logger (register_all ch regs) = logger ch"
  unfolding register_all_def
  by (induction regs arbitrary: ch) (simp_all add: register_frame)

lemma register_all_readiness:
  "readinessChecks ch = readinessChecks ch' \<Longrightarrow>
   readinessChecks (register_all ch regs) =
     readinessChecks (register_all ch' (filter is_readiness regs))"
  unfolding register_all_def
proof (induction regs arbitrary: ch ch')
  case Nil
  then show ?case by simp
next
  case (Cons reg regs)
  show ?case
  proof (cases reg)
    case (Liveness name check)
    have "readinessChecks (register ch reg) = readinessChecks ch'"
      using Cons.prems Liveness by (simp add: AddLiveness_def)
    from Cons.IH [OF this] show ?thesis
      using Liveness by simp
  next
    case (Readiness name check)
    have "readinessChecks (register ch reg) = readinessChecks (register ch' reg)"
      using Cons.prems Readiness by (simp add: AddReadiness_def)
    from Cons.IH [OF this] show ?thesis
      using Readiness by simp
  qed
qed

lemma register_all_liveness:
  "livenessChecks ch = livenessChecks ch' \<Longrightarrow>
   livenessChecks (register_all ch regs) =
     livenessChecks (register_all ch' (filter (\<lambda>reg. \<not> is_readiness reg) regs))"
  unfolding register_all_def
proof (induction regs arbitrary: ch ch')
  case Nil
  then show ?case by simp
next
  case (Cons reg regs)
  show ?case
  proof (cases reg)
    case (Liveness name check)
    have "livenessChecks (register ch reg) = livenessChecks (register ch' reg)"
      using Cons.prems Liveness by (simp add: AddLiveness_def)
    from Cons.IH [OF this] show ?thesis
      using Liveness by simp
  next
    case (Readiness name check)
    have "livenessChecks (register ch reg) = livenessChecks ch'"
      using Cons.prems Readiness by (simp add: AddReadiness_def)
    from Cons.IH [OF this] show ?thesis
      using Readiness by simp
  qed
qed

text \<open>
  Claim C7. \<^verbatim>\<open>AddLiveness\<close> leaves the readiness map as it is and
  \<^verbatim>\<open>AddReadiness\<close> leaves the liveness map as it is, for a new name and for a name
  already registered alike, and the whole outcome of a request to the other endpoint
  is the same before and after the call. For a sequence of registrations: a request to
  the readiness endpoint has the outcome it has when only the readiness registrations
  of the sequence are made, and a request to the liveness endpoint the outcome it has
  when only the liveness registrations are made.
\<close>

theorem registration_frame:
  "readinessChecks (fst (AddLiveness ch name check)) = readinessChecks ch \<and>
   livenessChecks (fst (AddReadiness ch name check)) = livenessChecks ch \<and>
   readyEndpoint (fst (AddLiveness ch name check)) r names w = readyEndpoint ch r names w \<and>
   healthEndpoint (fst (AddReadiness ch name check)) r names w = healthEndpoint ch r names w \<and>
   readyEndpoint (register_all ch regs) r names w =
     readyEndpoint (register_all ch (filter is_readiness regs)) r names w \<and>
   healthEndpoint (register_all ch regs) r names w =
     healthEndpoint (register_all ch (filter (\<lambda>reg. \<not> is_readiness reg) regs)) r names w"
proof -
  have one: "handle (fst (AddLiveness ch name check)) r sets orders w = handle ch r sets orders w"
    "handle (fst (AddReadiness ch name check)) r sets orders w = handle ch r sets orders w"
    for sets orders
    by (rule handle_cong; simp add: AddLiveness_def AddReadiness_def path_fields_def)+
  have many: "handle (register_all ch regs) r sets orders w =
      handle (register_all ch (filter P regs)) r sets orders w" for sets orders P
    by (rule handle_cong) (simp_all add: register_all_frame)
  show ?thesis
    unfolding readyEndpoint_def healthEndpoint_def
    using one many register_all_readiness [of ch ch regs] register_all_liveness [of ch ch regs]
    by (simp add: AddLiveness_def AddReadiness_def)
qed

theorem registration_frame_witness:
  "map_sum id (\<lambda>out. resp_code (response out))
     (healthEndpoint example_handler get_request [] 0) = Inr 200 \<and>
   map_sum id (\<lambda>out. resp_code (response out))
     (healthEndpoint
        (fst (AddReadiness example_handler ''db'' (Some (failing ''timeout'')))) get_request [] 0) =
     Inr 200 \<and>
   map_sum id (\<lambda>out. resp_code (response out))
     (readyEndpoint
        (fst (AddLiveness example_handler ''db'' (Some passing))) get_request
        [''db'', ''off'', ''cache''] 0) = Inr 503"
  using registration_frame [where ch = example_handler and name = "''db''"
      and check = "Some (failing ''timeout'')" and r = get_request and names = "[]"
      and w = 0 and regs = "[]"]
    registration_frame [where ch = example_handler and name = "''db''"
      and check = "Some passing" and r = get_request
      and names = "[''db'', ''off'', ''cache'']" and w = 0 and regs = "[]"]
  by (simp add: healthEndpoint_def readyEndpoint_def handle_def example_handler_def
      get_request_def checkLogger_def failing_def passing_def WriteHeader_def Let_def
      AddLiveness_def AddReadiness_def)

subsection \<open>Construction and routes\<close>

lemma newChecksHandler_normalises:
  assumes "healthPath \<noteq> []" and "readyPath \<noteq> []"
  shows "\<exists>ch. newChecksHandler healthPath readyPath = Inr ch \<and>
           livenessPath ch =
             (if hd healthPath = CHR ''/'' then healthPath else CHR ''/'' # healthPath) \<and>
           readinessPath ch =
             (if hd readyPath = CHR ''/'' then readyPath else CHR ''/'' # readyPath) \<and>
           hd (livenessPath ch) = CHR ''/'' \<and> hd (readinessPath ch) = CHR ''/''"
  using assms
  by (cases healthPath; cases readyPath) (simp_all add: newChecksHandler_def)

lemma newChecksHandler_health:
  "newChecksHandler ''health'' ''/ready'' =
     Inr \<lparr> livenessPath = ''/health'', livenessChecks = Map.empty,
           readinessPath = ''/ready'', readinessChecks = Map.empty,
           failFast = False, logger = None \<rparr>"
  by (simp add: newChecksHandler_def)

text \<open>
  Claim C5, at the input where the code leaves it. Construction with the empty string
  as the health path does not store the path \<^verbatim>\<open>/\<close>: it panics with an index
  out of range, so no handler is returned. (For two non-empty paths the stored paths
  do begin with a slash, kept or prepended: lemma \<open>newChecksHandler_normalises\<close>.)
\<close>

theorem newChecksHandler_empty_health_path:
  "(newChecksHandler [] ''ready'' :: panic + nat checksHandler) = Inl IndexOutOfRange \<and>
   (NewChecksHandler [] ''ready'' :: panic + nat checksHandler) = Inl IndexOutOfRange"
  by (simp add: newChecksHandler_def NewChecksHandler_def)

text \<open>
  Claim C9. Construction with the empty string as the health path or as the ready
  path panics with an index out of range, through each of the three constructors.
\<close>

theorem newChecksHandler_empty_path_panics:
  assumes "healthPath = [] \<or> readyPath = []"
  shows "(newChecksHandler healthPath readyPath :: panic + 'w checksHandler) =
           Inl IndexOutOfRange \<and>
         (NewChecksHandler healthPath readyPath :: panic + 'w checksHandler) =
           Inl IndexOutOfRange \<and>
         (NewChecksHandlerWithOptions healthPath readyPath options :: panic + 'w checksHandler) =
           Inl IndexOutOfRange"
  using assms
  by (cases healthPath; cases readyPath)
     (simp_all add: newChecksHandler_def NewChecksHandler_def NewChecksHandlerWithOptions_def)

theorem newChecksHandler_empty_path_panics_witness:
  "(newChecksHandler ''health'' [] :: panic + nat checksHandler) = Inl IndexOutOfRange \<and>
   (NewChecksHandlerWithOptions ''health'' [] [WithLogger (Some stderr_logger)]
      :: panic + nat checksHandler) = Inl IndexOutOfRange"
proof -
  have "''health'' = [] \<or> ([] :: string) = []"
    by simp
  from newChecksHandler_empty_path_panics [OF this,
      where options = "[WithLogger (Some stderr_logger) :: nat checksHandler \<Rightarrow> nat checksHandler]"]
  show ?thesis
    by simp
qed

lemma HandleFunc_twice:
  "HandleFunc mux pattern h = Inr mux' \<Longrightarrow> \<exists>p. HandleFunc mux' pattern h' = Inl p"
  by (auto simp: HandleFunc_def map_add_def split: if_splits)

lemma registerMux_same_path:
  assumes "livenessPath ch = readinessPath ch"
  shows "\<exists>p. snd (registerMux ch mux) = Inl p"
proof (cases "HandleFunc mux (readinessPath ch) ReadyEndpoint")
  case (Inl p)
  then show ?thesis by (simp add: registerMux_def)
next
  case (Inr mux')
  from HandleFunc_twice [OF this, of HealthEndpoint] show ?thesis
    using Inr assms by (simp add: registerMux_def)
qed

text \<open>
  Claim C10. When the liveness path and the readiness path of a handler are equal,
  \<^verbatim>\<open>Handler\<close> panics, and \<^verbatim>\<open>RegisterHandler\<close> panics on every router it is
  given: \<^verbatim>\<open>registerMux\<close> registers the same pattern twice. On the fresh router of
  \<^verbatim>\<open>Handler\<close>, with a non-empty path, the panic is the one of the second
  registration.
\<close>

theorem equal_paths_panic:
  assumes "livenessPath ch = readinessPath ch"
  shows "(\<exists>p. snd (Handler ch) = Inl p) \<and>
         (\<exists>p. snd (RegisterHandler ch mux) = Inl p) \<and>
         (livenessPath ch = [] \<or>
          snd (Handler ch) = Inl (MultipleRegistrations (livenessPath ch)))"
proof -
  have h: "snd (Handler ch) = snd (registerMux ch NewServeMux)"
    by (simp add: Handler_def Let_def split: prod.splits)
  have g: "snd (RegisterHandler ch mux) = snd (registerMux ch mux)"
    by (simp add: RegisterHandler_def Let_def split: prod.splits)
  have "livenessPath ch \<noteq> [] \<Longrightarrow>
      snd (registerMux ch NewServeMux) = Inl (MultipleRegistrations (livenessPath ch))"
    using assms by (simp add: registerMux_def HandleFunc_def NewServeMux_def)
  then show ?thesis
    unfolding h g using registerMux_same_path [OF assms] by blast
qed

theorem equal_paths_panic_witness:
  "newChecksHandler ''health'' ''/health'' = Inr same_path_handler \<and>
   snd (Handler same_path_handler) = Inl (MultipleRegistrations ''/health'') \<and>
   snd (RegisterHandler same_path_handler [(''/metrics'', OtherHandler 0)]) =
     Inl (MultipleRegistrations ''/health'')"
proof -
  have "livenessPath same_path_handler = readinessPath same_path_handler"
    by (simp add: same_path_handler_def)
  from equal_paths_panic [OF this, of "[(''/metrics'', OtherHandler 0)]"] show ?thesis
    by (simp add: same_path_handler_def newChecksHandler_def Handler_def RegisterHandler_def
        registerMux_def HandleFunc_def NewServeMux_def)
qed

end
